theory Spec2Isabelle
  imports
    Main
    "HOL-Library.AList"
    "HOL-Library.Char_ord"
    "HOL-Library.List_Lexorder"
    "HOL-Library.Product_Lexorder"
begin

section \<open>fontra-compile: the compile-fontmake action\<close>

text \<open>
  A shallow embedding of \<^verbatim>\<open>src/fontra_compile/compile_fontmake_action.py\<close>.
  Python strings are \<^typ>\<open>string\<close> (bytes of the UTF-8 encoding, whose lexicographic
  order is the code point order Python compares strings by), a \<^verbatim>\<open>dict\<close> whose
  iteration order matters is an association list updated with \<^const>\<open>AList.update\<close>
  (a new key goes last, an old key keeps its place and takes the new value), and an
  exception is the \<open>Inl\<close> branch of a sum.  Coordinates are Python floats that the
  module only passes along; their type is the parameter \<open>'v\<close>.
\<close>

datatype error =
    KeyError string       \<comment> \<open>\<^verbatim>\<open>axes[name]\<close> on a missing name\<close>
  | AttributeError        \<comment> \<open>\<^verbatim>\<open>defaultSource.path\<close> when \<^verbatim>\<open>findDefault()\<close> is \<^verbatim>\<open>None\<close>\<close>

subsection \<open>Paths as the module observes them\<close>

text \<open>
  A \<^verbatim>\<open>pathlib.Path\<close> is observed through \<^verbatim>\<open>os.fspath(p)\<close> and \<^verbatim>\<open>p.suffix\<close> only.
\<close>

record path =
  fspath :: string
  suffix :: string

text \<open>
  \<^verbatim>\<open>PurePath.suffix\<close> of a file name: the part from the last dot on, when that dot is
  neither the first nor the last character.
\<close>

definition rfind_dot :: "string \<Rightarrow> nat option" where
  "rfind_dot nm =
     (case filter (\<lambda>i. nm ! i = CHR ''.'') (rev [0..<length nm]) of
        [] \<Rightarrow> None
      | i # _ \<Rightarrow> Some i)"

definition name_suffix :: "string \<Rightarrow> string" where
  "name_suffix nm =
     (case rfind_dot nm of
        None \<Rightarrow> []
      | Some i \<Rightarrow> if 0 < i \<and> i < length nm - 1 then drop i nm else [])"

text \<open>
  \<^verbatim>\<open>tmpDir / fileName\<close> for a file name of one component (POSIX flavour): the
  directory's string, a separator unless the directory is the current one or ends in
  one, and the file name.
\<close>

definition truediv :: "path \<Rightarrow> string \<Rightarrow> path" where
  "truediv dir fileName =
     \<lparr>fspath =
        (if fspath dir = ''.'' then fileName
         else if fspath dir \<noteq> [] \<and> last (fspath dir) = CHR ''/'' then fspath dir @ fileName
         else fspath dir @ ''/'' @ fileName),
      suffix = name_suffix fileName\<rparr>"

text \<open>
  \<^verbatim>\<open>str.lower()\<close>.  On the ASCII letters it adds 32; the model leaves every other byte
  alone.  Python also lowers letters beyond ASCII, but none of them lowers to an ASCII
  \<open>t\<close> or \<open>f\<close>, so the comparison with \<^verbatim>\<open>".ttf"\<close> below is the same.
\<close>

definition lower_char :: "char \<Rightarrow> char" where
  "lower_char c =
     (let n = (of_char c :: nat) in if 65 \<le> n \<and> n \<le> 90 then char_of (n + 32) else c)"

definition lower :: "string \<Rightarrow> string" where
  "lower s = map lower_char s"

subsection \<open>The compiler driver\<close>

text \<open>Lines 97--102: the local \<^verbatim>\<open>outputType\<close> of \<^verbatim>\<open>compileFromDesignspace\<close>.\<close>

definition outputType :: "path \<Rightarrow> path \<Rightarrow> string" where
  "outputType sourcePath outputFontPath =
     (let isVariable = (suffix sourcePath = ''.designspace'') in
      if lower (suffix outputFontPath) \<noteq> ''.ttf''
      then (if isVariable then ''variable-cff2'' else ''otf'')
      else (if isVariable then ''variable'' else ''ttf''))"

text \<open>
  \<^verbatim>\<open>compileFromDesignspace\<close>: the value is the argument vector handed to
  \<^verbatim>\<open>fontmake_main\<close>.
\<close>

definition compileFromDesignspace :: "path \<Rightarrow> path \<Rightarrow> string list \<Rightarrow> string list" where
  "compileFromDesignspace sourcePath outputFontPath extraArguments =
     (let arguments =
        [if suffix sourcePath = ''.ufo'' then ''-u'' else ''-m'',
         fspath sourcePath,
         ''-o'',
         outputType sourcePath outputFontPath,
         ''--output-path'',
         fspath outputFontPath]
      in arguments @ extraArguments)"

text \<open>
  Lines 88--92 of \<^verbatim>\<open>process\<close>: the loop over \<^verbatim>\<open>self.options.items()\<close>, the list
  \<^verbatim>\<open>extraArguments\<close> being the accumulator.
\<close>

fun extraArguments_loop :: "(string \<times> string) list \<Rightarrow> string list \<Rightarrow> string list" where
  "extraArguments_loop [] extraArguments = extraArguments"
| "extraArguments_loop ((option, val) # items) extraArguments =
     (let extraArguments1 = extraArguments @ [''--'' @ option];
          extraArguments2 = (if val \<noteq> [] then extraArguments1 @ [val] else extraArguments1)
      in extraArguments_loop items extraArguments2)"

text \<open>
  Lines 62--63 and 88--94 of \<^verbatim>\<open>process\<close>: from \<^verbatim>\<open>isVariable\<close>, the temporary
  directory, the output path and the options, the argument vector that reaches
  \<^verbatim>\<open>fontmake_main\<close>.
\<close>

definition process_arguments ::
  "(string \<times> string) list \<Rightarrow> bool \<Rightarrow> path \<Rightarrow> path \<Rightarrow> string list" where
  "process_arguments options isVariable tmpDir outputFontPath =
     (let fileName = ''temp.'' @ (if isVariable then ''designspace'' else ''ufo'');
          sourcePath = truediv tmpDir fileName;
          extraArguments = extraArguments_loop options []
      in compileFromDesignspace sourcePath outputFontPath extraArguments)"

subsection \<open>The designspace document\<close>

text \<open>
  The fields of fontTools' descriptors that \<^verbatim>\<open>addInstances\<close> reads and writes.  The
  \<^verbatim>\<open>name\<close> of a label is \<open>label_name\<close>, the \<^verbatim>\<open>name\<close> of an axis is \<open>axis_name\<close>.
  \<^verbatim>\<open>AxisDescriptor.map_forward\<close> is fontTools' user-to-design mapping; it is a field
  of the axis here.
\<close>

record 'v AxisLabelDescriptor =
  label_name :: string
  elidable :: bool
  userValue :: 'v

record 'v AxisDescriptor =
  tag :: string
  axis_name :: string
  axisLabels :: "'v AxisLabelDescriptor list"
  map_forward :: "'v \<Rightarrow> 'v"

record 'v InstanceDescriptor =
  familyName :: string
  styleName :: string
  location :: "(string \<times> 'v) list"

record 'v DesignSpaceDocument =
  axes :: "'v AxisDescriptor list"
  instances :: "'v InstanceDescriptor list"
  elidedFallbackName :: "string option"

subsection \<open>The instance synthesizer\<close>

text \<open>Lines 123--128 and the key of line 129: \<^verbatim>\<open>sortOrder.get(axis.tag, 100)\<close>.\<close>

definition sortOrder :: "(string \<times> nat) list" where
  "sortOrder = [(''wght'', 0), (''wdth'', 1), (''ital'', 2), (''slnt'', 3)]"

definition sortOrder_get :: "string \<Rightarrow> nat" where
  "sortOrder_get t = (case map_of sortOrder t of None \<Rightarrow> 100 | Some n \<Rightarrow> n)"

text \<open>\<^verbatim>\<open>" ".join(nameParts)\<close>.\<close>

fun join :: "string \<Rightarrow> string list \<Rightarrow> string" where
  "join sep [] = []"
| "join sep [x] = x"
| "join sep (x # y # ys) = x @ sep @ join sep (y # ys)"

text \<open>
  \<^verbatim>\<open>mapLocationForward\<close>: the comprehension walks \<^verbatim>\<open>location.items()\<close>, whose keys
  are distinct, and \<^verbatim>\<open>axes[name]\<close> raises on a name that is not a key.
\<close>

fun mapLocationForward ::
  "(string \<times> 'v) list \<Rightarrow> (string \<rightharpoonup> 'v AxisDescriptor) \<Rightarrow> error + (string \<times> 'v) list" where
  "mapLocationForward [] axs = Inr []"
| "mapLocationForward ((name, v) # items) axs =
     (case axs name of
        None \<Rightarrow> Inl (KeyError name)
      | Some axis \<Rightarrow>
          (case mapLocationForward items axs of
             Inl e \<Rightarrow> Inl e
           | Inr rest \<Rightarrow> Inr ((name, map_forward axis v) # rest)))"

text \<open>
  Lines 145--157, the loop over \<^verbatim>\<open>itertools.product(*axisLabels)\<close>; an item is
  \<^verbatim>\<open>(name, valueLabel, value)\<close>, and \<^verbatim>\<open>if valueLabel\<close> keeps a label that is
  neither \<^verbatim>\<open>None\<close> nor the empty string.  The two values of \<^verbatim>\<open>location\<close> are
  \<open>userLocation\<close> and \<open>designLocation\<close>; \<^verbatim>\<open>elidedFallbackName\<close>, \<^verbatim>\<open>styleName\<close> and
  \<^verbatim>\<open>axisLabels\<close> are \<open>fallbackName\<close>, \<open>style\<close> and \<open>labelItems\<close> (the record fields
  have those names).
\<close>

fun addInstances_loop ::
  "(string \<times> string option \<times> 'v) list list \<Rightarrow> string \<Rightarrow> (string \<rightharpoonup> 'v AxisDescriptor) \<Rightarrow>
   'v DesignSpaceDocument \<Rightarrow> error + 'v DesignSpaceDocument" where
  "addInstances_loop [] fallbackName axesByName dsDoc = Inr dsDoc"
| "addInstances_loop (items # rest) fallbackName axesByName dsDoc =
     (let userLocation = fold (\<lambda>(name, valueLabel, v). AList.update name v) items [];
          nameParts = List.map_filter
            (\<lambda>(name, valueLabel, v).
               case valueLabel of None \<Rightarrow> None | Some s \<Rightarrow> if s \<noteq> [] then Some s else None)
            items;
          nameParts = (if nameParts = [] then [fallbackName] else nameParts);
          style = join '' '' nameParts
      in case mapLocationForward userLocation axesByName of
           Inl e \<Rightarrow> Inl e
         | Inr designLocation \<Rightarrow>
             addInstances_loop rest fallbackName axesByName
               (dsDoc\<lparr>instances := instances dsDoc @
                  [\<lparr>familyName = ''Testing'', styleName = style, location = designLocation\<rparr>]\<rparr>))"

text \<open>
  \<^verbatim>\<open>addInstances\<close>: from the document read from the designspace file to the document
  in that file afterwards.  The early return writes nothing.  Python's \<^verbatim>\<open>sorted\<close> is
  stable, as \<^const>\<open>sort_key\<close> is; \<^verbatim>\<open>itertools.product\<close> is \<^const>\<open>product_lists\<close>
  (the last list varies fastest); \<^verbatim>\<open>x or "Regular"\<close> replaces \<^verbatim>\<open>None\<close> and the empty
  string.
\<close>

definition addInstances :: "'v DesignSpaceDocument \<Rightarrow> error + 'v DesignSpaceDocument" where
  "addInstances dsDoc =
     (if instances dsDoc \<noteq> [] then Inr dsDoc
      else
        let axs = sort_key (\<lambda>axis. sortOrder_get (tag axis)) (axes dsDoc);
            fallbackName =
              (case elidedFallbackName dsDoc of
                 None \<Rightarrow> ''Regular''
               | Some s \<Rightarrow> if s \<noteq> [] then s else ''Regular'');
            dsDoc = dsDoc\<lparr>elidedFallbackName := Some fallbackName\<rparr>;
            labelItems =
              map (\<lambda>axis.
                     map (\<lambda>label.
                            (axis_name axis,
                             if \<not> elidable label then Some (label_name label) else None,
                             userValue label))
                       (axisLabels axis))
                (filter (\<lambda>axis. axisLabels axis \<noteq> []) axs);
            axesByName = fold (\<lambda>axis m. m(axis_name axis \<mapsto> axis)) (axes dsDoc) Map.empty
        in addInstances_loop (product_lists labelItems) fallbackName axesByName dsDoc)"

subsection \<open>The default source's UFO\<close>

text \<open>
  The part of a UFO that \<^verbatim>\<open>addGlyphOrder\<close> and \<^verbatim>\<open>addMinimalGaspTable\<close> touch: the
  \<^verbatim>\<open>lib.plist\<close> dictionary, the keys of the glyph set, and the attributes of the font
  info.  A property list value is a list of strings, a list of gasp range records, or
  something else (\<open>'a\<close>).
\<close>

record gaspRangeRecord =
  rangeMaxPPEM :: nat
  rangeGaspBehavior :: "nat list"

datatype 'a plistValue =
    StringList "string list"
  | GaspRangeRecords "gaspRangeRecord list"
  | OtherValue 'a

record 'a ufo =
  lib :: "string \<rightharpoonup> 'a plistValue"
  glyphSet_keys :: "string list"
  info :: "string \<rightharpoonup> 'a plistValue"

subsection \<open>The glyph order assigner\<close>

text \<open>Lines 166--171.\<close>

definition firstFourGIDS :: "string \<rightharpoonup> nat" where
  "firstFourGIDS =
     map_of (map (\<lambda>(gid, gn). (gn, gid)) (enumerate 0 [''.notdef'', ''.null'', ''CR'', ''space'']))"

definition nextGID :: nat where
  "nextGID = length [''.notdef'', ''.null'', ''CR'', ''space'']"

definition glyphSortKeyFunc :: "string \<Rightarrow> nat \<times> string" where
  "glyphSortKeyFunc glyphName =
     (case firstFourGIDS glyphName of None \<Rightarrow> nextGID | Some gid \<Rightarrow> gid, glyphName)"

text \<open>
  \<^verbatim>\<open>addGlyphOrder\<close> and \<^verbatim>\<open>addMinimalGaspTable\<close> take the UFO of the document's default
  source, \<open>None\<close> when \<^verbatim>\<open>findDefault()\<close> returns \<^verbatim>\<open>None\<close> (then
  \<^verbatim>\<open>defaultSource.path\<close> raises), and give the UFO on disk afterwards.
\<close>

definition addGlyphOrder :: "'a ufo option \<Rightarrow> error + 'a ufo" where
  "addGlyphOrder defaultSource =
     (case defaultSource of
        None \<Rightarrow> Inl AttributeError
      | Some u \<Rightarrow>
          if lib u ''public.glyphOrder'' = None
          then Inr (u\<lparr>lib := (lib u)(''public.glyphOrder'' \<mapsto>
                       StringList (sort_key glyphSortKeyFunc (glyphSet_keys u)))\<rparr>)
          else Inr u)"

subsection \<open>The table augmenter\<close>

definition addMinimalGaspTable :: "'a ufo option \<Rightarrow> error + 'a ufo" where
  "addMinimalGaspTable defaultSource =
     (case defaultSource of
        None \<Rightarrow> Inl AttributeError
      | Some u \<Rightarrow>
          Inr (u\<lparr>info := (info u)(''openTypeGaspRangeRecords'' \<mapsto>
                 GaspRangeRecords [\<lparr>rangeMaxPPEM = 0xFFFF, rangeGaspBehavior = [0, 1, 2, 3]\<rparr>])\<rparr>))"

subsection \<open>Notions used in the statements\<close>

text \<open>
  The fallback name that \<^verbatim>\<open>addInstances\<close> computes on line 131, and the axes that take
  part in the product: those with a label, in the order of line 129.
\<close>

definition fallback_of :: "'v DesignSpaceDocument \<Rightarrow> string" where
  "fallback_of dsDoc =
     (case elidedFallbackName dsDoc of
        None \<Rightarrow> ''Regular''
      | Some s \<Rightarrow> if s = [] then ''Regular'' else s)"

definition labelled_axes :: "'v DesignSpaceDocument \<Rightarrow> 'v AxisDescriptor list" where
  "labelled_axes dsDoc =
     filter (\<lambda>axis. axisLabels axis \<noteq> [])
       (sort_key (\<lambda>axis. sortOrder_get (tag axis)) (axes dsDoc))"

text \<open>
  A combination is one label of each labelled axis.  Its style name and its design
  location, as the loop computes them; the axis looked up by name is the last axis of
  the document with that name.
\<close>

definition style_of :: "string \<Rightarrow> 'v AxisLabelDescriptor list \<Rightarrow> string" where
  "style_of fallbackName combination =
     (let parts = map label_name
        (filter (\<lambda>l. \<not> elidable l \<and> label_name l \<noteq> []) combination)
      in if parts = [] then fallbackName else join '' '' parts)"

definition location_of ::
  "'v DesignSpaceDocument \<Rightarrow> 'v AxisLabelDescriptor list \<Rightarrow> (string \<times> 'v) list" where
  "location_of dsDoc combination =
     map (\<lambda>(name, v).
            (name,
             map_forward
               (the (fold (\<lambda>axis m. m(axis_name axis \<mapsto> axis)) (axes dsDoc) Map.empty name)) v))
       (fold (\<lambda>(axis, l). AList.update (axis_name axis) (userValue l))
          (zip (labelled_axes dsDoc) combination) [])"

definition firstFour :: "string list" where
  "firstFour = [''.notdef'', ''.null'', ''CR'', ''space'']"

subsection \<open>Example projects\<close>

text \<open>
  One axis \<open>wght\<close> with the labels Regular at 400 (elidable) and Bold at 700, and no
  instance; the forward map doubles the value.
\<close>

definition scenarioA_doc :: "int DesignSpaceDocument" where
  "scenarioA_doc =
     \<lparr>axes =
        [\<lparr>tag = ''wght'', axis_name = ''Weight'',
          axisLabels =
            [\<lparr>label_name = ''Regular'', elidable = True, userValue = 400\<rparr>,
             \<lparr>label_name = ''Bold'', elidable = False, userValue = 700\<rparr>],
          map_forward = (\<lambda>v. 2 * v)\<rparr>],
      instances = [],
      elidedFallbackName = None\<rparr>"

text \<open>An axis without labels beside an axis with one label.\<close>

definition unlabelled_axis_doc :: "int DesignSpaceDocument" where
  "unlabelled_axis_doc =
     \<lparr>axes =
        [\<lparr>tag = ''opsz'', axis_name = ''Optical Size'', axisLabels = [],
          map_forward = (\<lambda>v. v)\<rparr>,
         \<lparr>tag = ''wght'', axis_name = ''Weight'',
          axisLabels = [\<lparr>label_name = ''Bold'', elidable = False, userValue = 700\<rparr>],
          map_forward = (\<lambda>v. v)\<rparr>],
      instances = [],
      elidedFallbackName = None\<rparr>"

text \<open>A label that is not elidable and has the empty name.\<close>

definition empty_label_doc :: "int DesignSpaceDocument" where
  "empty_label_doc =
     \<lparr>axes =
        [\<lparr>tag = ''wdth'', axis_name = ''Width'',
          axisLabels = [\<lparr>label_name = ''Condensed'', elidable = False, userValue = 75\<rparr>],
          map_forward = (\<lambda>v. v)\<rparr>,
         \<lparr>tag = ''wght'', axis_name = ''Weight'',
          axisLabels = [\<lparr>label_name = '''', elidable = False, userValue = 400\<rparr>],
          map_forward = (\<lambda>v. v)\<rparr>],
      instances = [],
      elidedFallbackName = None\<rparr>"

text \<open>A document that declares an instance.\<close>

definition declared_instance_doc :: "int DesignSpaceDocument" where
  "declared_instance_doc =
     scenarioA_doc\<lparr>instances :=
       [\<lparr>familyName = ''MyFont'', styleName = ''Medium'', location = [(''Weight'', 1000)]\<rparr>]\<rparr>"

text \<open>The glyph set A, space, .notdef, B with no glyph order, and a UFO that has one.\<close>

definition scenarioC_ufo :: "unit ufo" where
  "scenarioC_ufo =
     \<lparr>lib = Map.empty, glyphSet_keys = [''A'', ''space'', ''.notdef'', ''B''], info = Map.empty\<rparr>"

definition ordered_ufo :: "unit ufo" where
  "ordered_ufo =
     \<lparr>lib = [''public.glyphOrder'' \<mapsto> StringList [''B'', ''A'']],
      glyphSet_keys = [''A'', ''B''], info = Map.empty\<rparr>"

section \<open>Auxiliary facts\<close>

subsection \<open>The compiler driver\<close>

lemma name_suffix_temp_ufo: "name_suffix ''temp.ufo'' = ''.ufo''"
  by (simp add: name_suffix_def rfind_dot_def upt_rec)

lemma name_suffix_temp_designspace: "name_suffix ''temp.designspace'' = ''.designspace''"
  by (simp add: name_suffix_def rfind_dot_def upt_rec)

text \<open>
  The test of line 100 on the suffix itself: lower-casing gives \<open>.ttf\<close> exactly for
  the eight spellings of \<open>.ttf\<close> in upper and lower case.
\<close>

lemma of_char_lower_char:
  "(of_char (lower_char c) :: nat) =
     (if 65 \<le> (of_char c :: nat) \<and> (of_char c :: nat) \<le> 90 then of_char c + 32 else of_char c)"
  by (simp add: lower_char_def Let_def)

lemma lower_char_eq_iff:
  "lower_char c = d \<longleftrightarrow>
     (if 65 \<le> (of_char c :: nat) \<and> (of_char c :: nat) \<le> 90
      then (of_char c :: nat) + 32 = of_char d else c = d)"
proof -
  have "lower_char c = d \<longleftrightarrow> (of_char (lower_char c) :: nat) = of_char d"
    by simp
  then show ?thesis
    unfolding of_char_lower_char by (simp split: if_splits)
qed

lemma lower_char_dot: "lower_char c = CHR ''.'' \<longleftrightarrow> c = CHR ''.''"
  unfolding lower_char_eq_iff by auto

lemma lower_char_t: "lower_char c = CHR ''t'' \<longleftrightarrow> c = CHR ''t'' \<or> c = CHR ''T''"
proof -
  have "(of_char c :: nat) = 84 \<longleftrightarrow> c = CHR ''T''"
    using of_char_eq_iff [of c "CHR ''T''", where ?'a = nat] by simp
  then show ?thesis
    unfolding lower_char_eq_iff by auto
qed

lemma lower_char_f: "lower_char c = CHR ''f'' \<longleftrightarrow> c = CHR ''f'' \<or> c = CHR ''F''"
proof -
  have "(of_char c :: nat) = 70 \<longleftrightarrow> c = CHR ''F''"
    using of_char_eq_iff [of c "CHR ''F''", where ?'a = nat] by simp
  then show ?thesis
    unfolding lower_char_eq_iff by auto
qed

lemma lower_eq_ttf_iff:
  "lower s = ''.ttf'' \<longleftrightarrow>
     s \<in> {''.ttf'', ''.ttF'', ''.tTf'', ''.tTF'', ''.Ttf'', ''.TtF'', ''.TTf'', ''.TTF''}"
proof -
  have "lower s = ''.ttf'' \<longleftrightarrow>
      (\<exists>a b c d. s = [a, b, c, d] \<and> lower_char a = CHR ''.'' \<and> lower_char b = CHR ''t'' \<and>
         lower_char c = CHR ''t'' \<and> lower_char d = CHR ''f'')"
    by (auto simp: lower_def map_eq_Cons_conv)
  also have "\<dots> \<longleftrightarrow>
      s \<in> {''.ttf'', ''.ttF'', ''.tTf'', ''.tTF'', ''.Ttf'', ''.TtF'', ''.TTf'', ''.TTF''}"
    unfolding lower_char_dot lower_char_t lower_char_f by auto
  finally show ?thesis .
qed

lemma extraArguments_loop_eq:
  "extraArguments_loop items acc =
     acc @ concat (map (\<lambda>(option, v). if v = [] then [''--'' @ option] else [''--'' @ option, v]) items)"
  by (induction items acc rule: extraArguments_loop.induct) (simp_all add: Let_def)

subsection \<open>The instance synthesizer never raises\<close>

lemma keys_fold_update:
  "fst ` set (fold (\<lambda>(name, valueLabel, v). AList.update name v) items acc) =
     fst ` set acc \<union> fst ` set items"
proof (induction items arbitrary: acc)
  case Nil
  show ?case by simp
next
  case (Cons x items)
  obtain name valueLabel v where x: "x = (name, valueLabel, v)"
    by (cases x) auto
  have "fst ` set (AList.update name v acc) = insert name (fst ` set acc)"
    by (simp add: dom_update)
  with Cons.IH [of "AList.update name v acc"] show ?case
    by (simp add: x)
qed

lemma mapLocationForward_total:
  "fst ` set loc \<subseteq> dom axs \<Longrightarrow>
   mapLocationForward loc axs = Inr (map (\<lambda>(name, v). (name, map_forward (the (axs name)) v)) loc)"
  by (induction loc) auto

lemma dom_axesByName:
  "dom (fold (\<lambda>axis m. m(axis_name axis \<mapsto> axis)) axs m0) = dom m0 \<union> axis_name ` set axs"
  by (induction axs arbitrary: m0) auto


lemma addInstances_loop_eq:
  "\<forall>items \<in> set itemss. fst ` set items \<subseteq> dom abn \<Longrightarrow>
   addInstances_loop itemss fb abn d =
     Inr (d\<lparr>instances := instances d @
        map (\<lambda>items.
               \<lparr>familyName = ''Testing'',
                styleName =
                  (let parts = List.map_filter
                     (\<lambda>(name, valueLabel, v).
                        case valueLabel of None \<Rightarrow> None | Some s \<Rightarrow> if s \<noteq> [] then Some s else None)
                     items
                   in join '' '' (if parts = [] then [fb] else parts)),
                location = map (\<lambda>(name, v). (name, map_forward (the (abn name)) v))
                  (fold (\<lambda>(name, valueLabel, v). AList.update name v) items [])\<rparr>)
          itemss\<rparr>)"
proof (induction itemss arbitrary: d)
  case Nil
  show ?case by simp
next
  case (Cons items rest)
  have keys: "fst ` set (fold (\<lambda>(name, valueLabel, v). AList.update name v) items []) \<subseteq> dom abn"
    using Cons.prems by (simp add: keys_fold_update)
  have rest: "\<forall>items \<in> set rest. fst ` set items \<subseteq> dom abn"
    using Cons.prems by simp
  show ?case
    by (simp add: Let_def mapLocationForward_total [OF keys] Cons.IH [OF rest])
qed


lemma product_lists_map_map:
  "product_lists (map (\<lambda>a. map (h a) (L a)) as) =
     map (\<lambda>combo. map (\<lambda>(a, l). h a l) (zip as combo)) (product_lists (map L as))"
  by (induction as) (simp_all add: map_concat comp_def)

lemma map_filter_items:
  "length as = length combo \<Longrightarrow>
   List.map_filter
     (\<lambda>(name, valueLabel, v).
        case valueLabel of None \<Rightarrow> None | Some s \<Rightarrow> if s \<noteq> [] then Some s else None)
     (map (\<lambda>(axis, label).
             (axis_name axis, if \<not> elidable label then Some (label_name label) else None,
              userValue label))
        (zip as combo)) =
   map label_name (filter (\<lambda>l. \<not> elidable l \<and> label_name l \<noteq> []) combo)"
  by (induction as combo rule: list_induct2) (simp_all add: List.map_filter_simps)

lemma fold_update_items:
  "fold (\<lambda>(name, valueLabel, v). AList.update name v)
     (map (\<lambda>(axis, label).
             (axis_name axis, if \<not> elidable label then Some (label_name label) else None,
              userValue label))
        ps) acc =
   fold (\<lambda>(axis, l). AList.update (axis_name axis) (userValue l)) ps acc"
  by (induction ps arbitrary: acc) (simp_all add: split_def)

lemma addInstances_eq:
  fixes dsDoc :: "'v DesignSpaceDocument"
  assumes "instances dsDoc = []"
  shows "addInstances dsDoc =
     Inr (dsDoc\<lparr>elidedFallbackName := Some (fallback_of dsDoc),
                instances :=
                  map (\<lambda>combination.
                         \<lparr>familyName = ''Testing'',
                          styleName = style_of (fallback_of dsDoc) combination,
                          location = location_of dsDoc combination\<rparr>)
                    (product_lists (map axisLabels (labelled_axes dsDoc)))\<rparr>)"
proof -
  let ?h = "\<lambda>(axis :: 'v AxisDescriptor) (label :: 'v AxisLabelDescriptor).
              (axis_name axis, if \<not> elidable label then Some (label_name label) else None,
               userValue label)"
  let ?as = "labelled_axes dsDoc"
  let ?abn = "fold (\<lambda>axis m. m(axis_name axis \<mapsto> axis)) (axes dsDoc) Map.empty"
  let ?itemss = "product_lists (map (\<lambda>axis. map (?h axis) (axisLabels axis)) ?as)"
  have itemss: "?itemss =
      map (\<lambda>combo. map (\<lambda>(a, l). ?h a l) (zip ?as combo)) (product_lists (map axisLabels ?as))"
    by (rule product_lists_map_map)
  have keys: "\<forall>items \<in> set ?itemss. fst ` set items \<subseteq> dom ?abn"
  proof
    fix items assume "items \<in> set ?itemss"
    then have "items \<in> (\<lambda>combo. map (\<lambda>(a, l). ?h a l) (zip ?as combo)) `
        set (product_lists (map axisLabels ?as))"
      unfolding itemss by simp
    then obtain combo where items: "items = map (\<lambda>(a, l). ?h a l) (zip ?as combo)"
      by blast
    have "fst ` set items \<subseteq> axis_name ` set ?as"
      unfolding items by (auto dest: set_zip_leftD)
    also have "\<dots> \<subseteq> axis_name ` set (axes dsDoc)"
      by (auto simp: labelled_axes_def)
    finally show "fst ` set items \<subseteq> dom ?abn"
      by (simp add: dom_axesByName)
  qed
  have len: "length ?as = length combo" if "combo \<in> set (product_lists (map axisLabels ?as))" for combo
    using in_set_product_lists_length [OF that] by simp
  have "addInstances dsDoc =
      addInstances_loop ?itemss (fallback_of dsDoc) ?abn
        (dsDoc\<lparr>elidedFallbackName := Some (fallback_of dsDoc)\<rparr>)"
    using assms
    by (simp add: addInstances_def Let_def fallback_of_def labelled_axes_def
        split: option.splits)
  also have "\<dots> = Inr (dsDoc\<lparr>elidedFallbackName := Some (fallback_of dsDoc),
                instances :=
                  map (\<lambda>combination.
                         \<lparr>familyName = ''Testing'',
                          styleName = style_of (fallback_of dsDoc) combination,
                          location = location_of dsDoc combination\<rparr>)
                    (product_lists (map axisLabels (labelled_axes dsDoc)))\<rparr>)"
    unfolding addInstances_loop_eq [OF keys]
    unfolding itemss
    using assms len
    by (simp add: map_filter_items fold_update_items style_of_def location_of_def Let_def
        cong: map_cong)
  finally show ?thesis .
qed

lemma set_labelled_axes:
  "set (labelled_axes dsDoc) = {a \<in> set (axes dsDoc). axisLabels a \<noteq> []}"
  by (auto simp: labelled_axes_def)

lemma keys_fold_update_axes:
  "fst ` set (fold (\<lambda>(axis, l). AList.update (axis_name axis) (userValue l)) ps acc) =
     fst ` set acc \<union> axis_name ` fst ` set ps"
proof (induction ps arbitrary: acc)
  case Nil
  show ?case by simp
next
  case (Cons p ps)
  obtain a l where p: "p = (a, l)" by (cases p)
  have "fst ` set (AList.update (axis_name a) (userValue l) acc) =
      insert (axis_name a) (fst ` set acc)"
    by (simp add: dom_update)
  with Cons.IH [of "AList.update (axis_name a) (userValue l) acc"] show ?case
    by (simp add: p)
qed

lemma map_fst_map_values:
  "map fst (map (\<lambda>(name, v). (name, g name v)) xs) = map fst xs"
  by (induction xs) auto

lemma keys_location_of:
  assumes "length combination = length (labelled_axes dsDoc)"
  shows "fst ` set (location_of dsDoc combination) = axis_name ` set (labelled_axes dsDoc)"
proof -
  have z: "fst ` set (zip (labelled_axes dsDoc) combination) = set (labelled_axes dsDoc)"
    using assms by (metis map_fst_zip set_map)
  have "fst ` set (location_of dsDoc combination) = set (map fst (location_of dsDoc combination))"
    by simp
  also have "\<dots> = set (map fst (fold (\<lambda>(axis, l). AList.update (axis_name axis) (userValue l))
      (zip (labelled_axes dsDoc) combination) []))"
    unfolding location_of_def by (simp only: map_fst_map_values)
  also have "\<dots> = axis_name ` set (labelled_axes dsDoc)"
    using keys_fold_update_axes [of "zip (labelled_axes dsDoc) combination" "[]"] z by simp
  finally show ?thesis .
qed

lemma prod_list_insort_key:
  "prod_list (map g (insort_key f x xs)) = g x * prod_list (map (g :: 'a \<Rightarrow> nat) xs)"
  by (induction xs) simp_all

lemma prod_list_sort_key:
  "prod_list (map g (sort_key f xs)) = prod_list (map (g :: 'a \<Rightarrow> nat) xs)"
  by (induction xs) (simp_all add: prod_list_insort_key)

lemma length_product_lists_prod:
  "length (product_lists xss) = prod_list (map length xss)"
  by (induction xss) (simp_all add: length_concat comp_def sum_list_triv)

lemmas eval_simps = addInstances_def Let_def sortOrder_get_def sortOrder_def
  List.map_filter_simps AList.update.simps

subsection \<open>The sort key of the glyph order\<close>

lemma key_firstFour:
  "map glyphSortKeyFunc firstFour = [(0, ''.notdef''), (1, ''.null''), (2, ''CR''), (3, ''space'')]"
  by (simp add: firstFour_def glyphSortKeyFunc_def firstFourGIDS_def enumerate_eq_zip upt_rec)

lemma key_other: "n \<notin> set firstFour \<Longrightarrow> glyphSortKeyFunc n = (4, n)"
  by (simp add: firstFour_def glyphSortKeyFunc_def firstFourGIDS_def nextGID_def enumerate_eq_zip upt_rec)

lemma key_special: "n \<in> set firstFour \<Longrightarrow> fst (glyphSortKeyFunc n) < 4"
  by (auto simp: firstFour_def glyphSortKeyFunc_def firstFourGIDS_def enumerate_eq_zip upt_rec)

lemma snd_key [simp]: "snd (glyphSortKeyFunc n) = n"
  by (simp add: glyphSortKeyFunc_def)

lemma inj_key: "inj_on glyphSortKeyFunc A"
  by (rule inj_on_inverseI [where g = snd]) simp

lemma sorted_key_firstFour: "sorted (map glyphSortKeyFunc (filter P firstFour))"
proof -
  have "sorted (map glyphSortKeyFunc firstFour)"
    unfolding key_firstFour by (simp add: less_eq_prod_def)
  then show ?thesis
    by (rule sorted_filter)
qed

lemma sorted_key_others:
  assumes "sorted ns" "set ns \<inter> set firstFour = {}"
  shows "sorted (map glyphSortKeyFunc ns)"
proof -
  have eq: "map glyphSortKeyFunc ns = map (Pair 4) ns"
  proof (rule map_cong [OF refl])
    fix n assume "n \<in> set ns"
    with assms(2) have "n \<notin> set firstFour" by blast
    then show "glyphSortKeyFunc n = (4, n)" by (rule key_other)
  qed
  have "sorted (map (Pair (4::nat)) ns)"
    using assms(1) by (induction ns) (auto simp: less_eq_prod_def)
  then show ?thesis
    unfolding eq .
qed

lemma glyph_order_eq:
  assumes "distinct gs"
  shows "sort_key glyphSortKeyFunc gs =
           filter (\<lambda>n. n \<in> set gs) firstFour @ sorted_list_of_set (set gs - set firstFour)"
    (is "?l = ?a @ ?b")
proof (rule map_sorted_distinct_set_unique [where f = glyphSortKeyFunc])
  show "inj_on glyphSortKeyFunc (set ?l \<union> set (?a @ ?b))"
    by (rule inj_key)
  show "sorted (map glyphSortKeyFunc ?l)"
    by (rule sorted_sort_key)
  show "distinct (map glyphSortKeyFunc ?l)"
    using assms by (simp add: distinct_map inj_key)
  have "sorted (map glyphSortKeyFunc ?b)"
    by (rule sorted_key_others) auto
  moreover have "glyphSortKeyFunc x \<le> glyphSortKeyFunc y"
    if "x \<in> set ?a" "y \<in> set ?b" for x y
  proof -
    have "fst (glyphSortKeyFunc x) < 4" using that(1) by (auto intro: key_special)
    moreover have "glyphSortKeyFunc y = (4, y)" using that(2) by (auto intro: key_other)
    ultimately show ?thesis by (cases "glyphSortKeyFunc x") (simp add: less_eq_prod_def)
  qed
  ultimately show "sorted (map glyphSortKeyFunc (?a @ ?b))"
    by (simp add: sorted_append sorted_key_firstFour)
  have "distinct (?a @ ?b)"
    by (auto simp: firstFour_def)
  then show "distinct (map glyphSortKeyFunc (?a @ ?b))"
    by (simp only: distinct_map inj_key simp_thms)
  show "set ?l = set (?a @ ?b)"
    by auto
qed

section \<open>The claims\<close>

text \<open>
  Claim C1, as amended.  When the document declares no instance, \<^verbatim>\<open>addInstances\<close>
  returns, and the location of every instance it writes has as keys exactly the names
  of the axes that have at least one label.  An axis without labels is left out of the
  product by the guard \<^verbatim>\<open>if axis.axisLabels\<close>, so it gets no value in the location.
\<close>

theorem addInstances_location_keys:
  assumes "instances dsDoc = []"
  shows "\<exists>dsDoc'. addInstances dsDoc = Inr dsDoc' \<and>
           (\<forall>inst \<in> set (instances dsDoc').
              set (map fst (location inst)) =
                set (map axis_name (filter (\<lambda>axis. axisLabels axis \<noteq> []) (axes dsDoc))))"
proof -
  have "set (map fst (location_of dsDoc combination)) =
          set (map axis_name (filter (\<lambda>axis. axisLabels axis \<noteq> []) (axes dsDoc)))"
    if "combination \<in> set (product_lists (map axisLabels (labelled_axes dsDoc)))" for combination
  proof -
    have "length combination = length (labelled_axes dsDoc)"
      using in_set_product_lists_length [OF that] by simp
    from keys_location_of [OF this] show ?thesis
      by (simp add: set_labelled_axes)
  qed
  then show ?thesis
    by (simp add: addInstances_eq [OF assms])
qed

theorem addInstances_location_keys_witness:
  "instances unlabelled_axis_doc = [] \<and>
   (\<exists>dsDoc'. addInstances unlabelled_axis_doc = Inr dsDoc' \<and>
      (\<forall>inst \<in> set (instances dsDoc'). set (map fst (location inst)) = {''Weight''}))"
proof -
  have h: "instances unlabelled_axis_doc = []"
    by (simp add: unlabelled_axis_doc_def)
  have "set (map axis_name (filter (\<lambda>axis. axisLabels axis \<noteq> []) (axes unlabelled_axis_doc))) =
      {''Weight''}"
    by (simp add: unlabelled_axis_doc_def)
  with addInstances_location_keys [OF h] h show ?thesis by simp
qed

text \<open>
  The claim as stated asks for a value for every axis of the project.  In
  \<open>unlabelled_axis_doc\<close> the axis Optical Size has no label; the one instance written
  has the location Weight = 700 and nothing for Optical Size.
\<close>

theorem addInstances_partial_location_counterexample:
  "addInstances unlabelled_axis_doc =
     Inr (unlabelled_axis_doc\<lparr>
       elidedFallbackName := Some ''Regular'',
       instances := [\<lparr>familyName = ''Testing'', styleName = ''Bold'',
                      location = [(''Weight'', 700)]\<rparr>]\<rparr>)
   \<and> map axis_name (axes unlabelled_axis_doc) = [''Optical Size'', ''Weight'']"
  by (simp add: unlabelled_axis_doc_def eval_simps)

text \<open>
  Claim C2.  The output-format token is the fourth argument of the compiler call.  For
  a static project (\<^verbatim>\<open>isVariable\<close> false) it is \<open>ttf\<close> when the destination's suffix
  is \<open>.ttf\<close> and \<open>otf\<close> for every other suffix; for a variable project it is
  \<open>variable\<close> when the suffix is \<open>.ttf\<close> and \<open>variable-cff2\<close> for every other suffix;
  it is never anything else.  The suffix counts as \<open>.ttf\<close> in any mix of upper and
  lower case, that is, when it is one of the eight strings listed.
\<close>

theorem outputType_table:
  "process_arguments options isVariable tmpDir outputFontPath ! 3 =
     (if isVariable
      then (if suffix outputFontPath \<in>
                 {''.ttf'', ''.ttF'', ''.tTf'', ''.tTF'', ''.Ttf'', ''.TtF'', ''.TTf'', ''.TTF''}
            then ''variable'' else ''variable-cff2'')
      else (if suffix outputFontPath \<in>
                 {''.ttf'', ''.ttF'', ''.tTf'', ''.tTF'', ''.Ttf'', ''.TtF'', ''.TTf'', ''.TTF''}
            then ''ttf'' else ''otf''))
   \<and> process_arguments options isVariable tmpDir outputFontPath ! 3
       \<in> {''otf'', ''ttf'', ''variable'', ''variable-cff2''}"
proof -
  have tok: "process_arguments options isVariable tmpDir outputFontPath ! 3 =
     (if isVariable
      then (if lower (suffix outputFontPath) = ''.ttf'' then ''variable'' else ''variable-cff2'')
      else (if lower (suffix outputFontPath) = ''.ttf'' then ''ttf'' else ''otf''))"
    by (cases isVariable)
       (simp_all add: process_arguments_def compileFromDesignspace_def outputType_def Let_def
          truediv_def name_suffix_temp_ufo name_suffix_temp_designspace)
  show ?thesis
    unfolding tok lower_eq_ttf_iff by simp
qed

text \<open>
  Claim C3.  When the document declares no instance, \<^verbatim>\<open>addInstances\<close> returns and
  writes as many instances as the product of the label counts of the axes that have a
  label; when no axis has a label it writes exactly one instance, whose style name is
  the elided-fallback name (and whose location is empty).
\<close>

theorem addInstances_count:
  assumes "instances dsDoc = []"
  shows "\<exists>dsDoc'. addInstances dsDoc = Inr dsDoc' \<and>
           length (instances dsDoc') =
             prod_list (map (\<lambda>axis. length (axisLabels axis))
               (filter (\<lambda>axis. axisLabels axis \<noteq> []) (axes dsDoc))) \<and>
           ((\<forall>axis \<in> set (axes dsDoc). axisLabels axis = []) \<longrightarrow>
              instances dsDoc' =
                [\<lparr>familyName = ''Testing'', styleName = fallback_of dsDoc, location = []\<rparr>])"
proof -
  have "length (product_lists (map axisLabels (labelled_axes dsDoc))) =
      prod_list (map (\<lambda>axis. length (axisLabels axis)) (labelled_axes dsDoc))"
    by (simp add: length_product_lists_prod comp_def)
  also have "\<dots> = prod_list (map (\<lambda>axis. length (axisLabels axis))
      (filter (\<lambda>axis. axisLabels axis \<noteq> []) (axes dsDoc)))"
    by (simp add: labelled_axes_def filter_sort prod_list_sort_key)
  finally have count: "length (product_lists (map axisLabels (labelled_axes dsDoc))) =
      prod_list (map (\<lambda>axis. length (axisLabels axis))
        (filter (\<lambda>axis. axisLabels axis \<noteq> []) (axes dsDoc)))" .
  have none: "labelled_axes dsDoc = []" if "\<forall>axis \<in> set (axes dsDoc). axisLabels axis = []"
    using that by (simp add: labelled_axes_def filter_empty_conv)
  show ?thesis
    by (auto simp: addInstances_eq [OF assms] count none style_of_def location_of_def)
qed

theorem addInstances_count_witness:
  "instances scenarioA_doc = [] \<and>
   (\<exists>dsDoc'. addInstances scenarioA_doc = Inr dsDoc' \<and> length (instances dsDoc') = 2)"
proof -
  have h: "instances scenarioA_doc = []"
    by (simp add: scenarioA_doc_def)
  have "prod_list (map (\<lambda>axis. length (axisLabels axis))
      (filter (\<lambda>axis. axisLabels axis \<noteq> []) (axes scenarioA_doc))) = 2"
    by (simp add: scenarioA_doc_def)
  with addInstances_count [OF h] h show ?thesis by auto
qed

text \<open>
  Claim C4.  When the lib has no glyph order and the glyph names are distinct (they
  are the keys of the glyph set), the order written is: those of \<open>.notdef\<close>, \<open>.null\<close>,
  \<open>CR\<close>, \<open>space\<close> that are glyph names, in this order, and then all other glyph
  names, strictly ascending.  The right-hand side depends on the set of glyph names
  only, not on the order in which the glyph set lists them.
\<close>

theorem addGlyphOrder_order:
  assumes "lib u ''public.glyphOrder'' = None" and "distinct (glyphSet_keys u)"
  shows "\<exists>u'. addGlyphOrder (Some u) = Inr u' \<and>
           lib u' ''public.glyphOrder'' =
             Some (StringList
               (filter (\<lambda>n. n \<in> set (glyphSet_keys u)) [''.notdef'', ''.null'', ''CR'', ''space'']
                @ sorted_list_of_set
                    (set (glyphSet_keys u) - {''.notdef'', ''.null'', ''CR'', ''space''}))) \<and>
           sorted_wrt (<)
             (sorted_list_of_set (set (glyphSet_keys u) - {''.notdef'', ''.null'', ''CR'', ''space''}))"
proof -
  have "sort_key glyphSortKeyFunc (glyphSet_keys u) =
      filter (\<lambda>n. n \<in> set (glyphSet_keys u)) [''.notdef'', ''.null'', ''CR'', ''space'']
      @ sorted_list_of_set (set (glyphSet_keys u) - {''.notdef'', ''.null'', ''CR'', ''space''})"
    using glyph_order_eq [OF assms(2)] by (simp add: firstFour_def)
  then show ?thesis
    using assms(1) by (simp add: addGlyphOrder_def)
qed

theorem addGlyphOrder_order_witness:
  "lib scenarioC_ufo ''public.glyphOrder'' = None \<and> distinct (glyphSet_keys scenarioC_ufo) \<and>
   (\<exists>u'. addGlyphOrder (Some scenarioC_ufo) = Inr u' \<and>
      lib u' ''public.glyphOrder'' = Some (StringList [''.notdef'', ''space'', ''A'', ''B'']))"
proof -
  have h1: "lib scenarioC_ufo ''public.glyphOrder'' = None"
    by (simp add: scenarioC_ufo_def)
  have h2: "distinct (glyphSet_keys scenarioC_ufo)"
    by (simp add: scenarioC_ufo_def)
  have "set (glyphSet_keys scenarioC_ufo) - {''.notdef'', ''.null'', ''CR'', ''space''} =
      set [''A'', ''B'']"
    by (auto simp: scenarioC_ufo_def)
  moreover have "sorted_list_of_set (set [''A'', ''B'']) = [''A'', ''B'']"
    by (simp add: sorted_list_of_set_sort_remdups)
  moreover have "filter (\<lambda>n. n \<in> set (glyphSet_keys scenarioC_ufo))
      [''.notdef'', ''.null'', ''CR'', ''space''] = [''.notdef'', ''space'']"
    by (simp add: scenarioC_ufo_def)
  ultimately show ?thesis
    using addGlyphOrder_order [OF h1 h2] h1 h2 by auto
qed

text \<open>
  Claim C5.  On a UFO whose lib has the key \<open>public.glyphOrder\<close>, \<^verbatim>\<open>addGlyphOrder\<close>
  changes nothing; and on every UFO, a second run after the first changes nothing.
\<close>

theorem addGlyphOrder_idempotent:
  "(lib u ''public.glyphOrder'' \<noteq> None \<longrightarrow> addGlyphOrder (Some u) = Inr u) \<and>
   (\<exists>u'. addGlyphOrder (Some u) = Inr u' \<and> addGlyphOrder (Some u') = Inr u')"
  by (auto simp: addGlyphOrder_def)

theorem addGlyphOrder_idempotent_witness:
  "lib ordered_ufo ''public.glyphOrder'' \<noteq> None \<and>
   addGlyphOrder (Some ordered_ufo) = Inr ordered_ufo"
proof -
  have h: "lib ordered_ufo ''public.glyphOrder'' \<noteq> None"
    by (simp add: ordered_ufo_def)
  with addGlyphOrder_idempotent [of ordered_ufo] show ?thesis by simp
qed

text \<open>
  Claim C6, as amended.  When the document declares no instance, the instances written
  are, in order, those of the combinations (one label of each labelled axis, the last
  axis varying fastest), and the style name of each is the names of the labels of its
  combination that are not elidable and not empty, joined by a space; when there is no
  such label it is the fallback name, which is \<open>Regular\<close> when the document declares
  none or the empty one (\<open>fallback_of\<close>).
\<close>

theorem addInstances_styleName:
  assumes "instances dsDoc = []"
  shows "\<exists>dsDoc'. addInstances dsDoc = Inr dsDoc' \<and>
           list_all2
             (\<lambda>combination inst.
                styleName inst =
                  (let parts = map label_name
                     (filter (\<lambda>l. \<not> elidable l \<and> label_name l \<noteq> []) combination)
                   in if parts = [] then fallback_of dsDoc else join '' '' parts))
             (product_lists (map axisLabels (labelled_axes dsDoc))) (instances dsDoc')"
  by (simp add: addInstances_eq [OF assms] list_all2_map2 list_all2_same style_of_def Let_def)

theorem addInstances_styleName_witness:
  "instances scenarioA_doc = [] \<and>
   (\<exists>dsDoc'. addInstances scenarioA_doc = Inr dsDoc' \<and>
      map styleName (instances dsDoc') = [''Regular'', ''Bold''])"
proof -
  have h: "instances scenarioA_doc = []"
    by (simp add: scenarioA_doc_def)
  have p: "product_lists (map axisLabels (labelled_axes scenarioA_doc)) =
      [[\<lparr>label_name = ''Regular'', elidable = True, userValue = 400\<rparr>],
       [\<lparr>label_name = ''Bold'', elidable = False, userValue = 700\<rparr>]]"
    by (simp add: scenarioA_doc_def labelled_axes_def)
  have f: "fallback_of scenarioA_doc = ''Regular''"
    by (simp add: scenarioA_doc_def fallback_of_def)
  from addInstances_styleName [OF h] obtain dsDoc' where
    d: "addInstances scenarioA_doc = Inr dsDoc'" and
    l: "list_all2
          (\<lambda>combination inst.
             styleName inst =
               (let parts = map label_name
                  (filter (\<lambda>l. \<not> elidable l \<and> label_name l \<noteq> []) combination)
                in if parts = [] then fallback_of scenarioA_doc else join '' '' parts))
          (product_lists (map axisLabels (labelled_axes scenarioA_doc))) (instances dsDoc')"
    by blast
  from l have "map styleName (instances dsDoc') = [''Regular'', ''Bold'']"
    unfolding p f by (auto simp: list_all2_Cons1 Let_def)
  with h d show ?thesis by simp
qed

text \<open>
  The claim as stated joins all labels that are not elided.  In \<open>empty_label_doc\<close>
  the one combination is the Weight label with the empty name and the Width label
  Condensed, neither elidable; joined by a space they give a name that starts with a
  space, and the style name written is \<open>Condensed\<close>: \<^verbatim>\<open>if valueLabel\<close> drops the
  empty name.
\<close>

theorem addInstances_styleName_counterexample:
  "addInstances empty_label_doc =
     Inr (empty_label_doc\<lparr>
       elidedFallbackName := Some ''Regular'',
       instances := [\<lparr>familyName = ''Testing'', styleName = ''Condensed'',
                      location = [(''Weight'', 400), (''Width'', 75)]\<rparr>]\<rparr>)
   \<and> product_lists (map axisLabels (labelled_axes empty_label_doc)) =
       [[\<lparr>label_name = '''', elidable = False, userValue = 400\<rparr>,
         \<lparr>label_name = ''Condensed'', elidable = False, userValue = 75\<rparr>]]
   \<and> join '' ''
         (map label_name
            (filter (\<lambda>l. \<not> elidable l)
               [\<lparr>label_name = '''', elidable = False, userValue = 400::int\<rparr>,
                \<lparr>label_name = ''Condensed'', elidable = False, userValue = 75\<rparr>]))
       = '' Condensed''"
  by (simp add: empty_label_doc_def labelled_axes_def eval_simps)

text \<open>
  Claim C7.  When the document declares an instance, \<^verbatim>\<open>addInstances\<close> returns
  without writing: the document, its instance list included, is what it was.
\<close>

theorem addInstances_noop: "instances dsDoc \<noteq> [] \<Longrightarrow> addInstances dsDoc = Inr dsDoc"
  by (simp add: addInstances_def)

theorem addInstances_noop_witness:
  "instances declared_instance_doc \<noteq> [] \<and>
   addInstances declared_instance_doc = Inr declared_instance_doc"
proof -
  have h: "instances declared_instance_doc \<noteq> []"
    by (simp add: declared_instance_doc_def)
  from addInstances_noop [OF h] h show ?thesis by simp
qed

text \<open>
  Claim C8.  Whatever the font info held, after \<^verbatim>\<open>addMinimalGaspTable\<close> the gasp
  range records are the one record with \<open>rangeMaxPPEM\<close> 65535 and the behaviours 0, 1,
  2, 3; and a second run changes nothing.  (The UFO is that of the default source.)
\<close>

theorem addMinimalGaspTable_range:
  "\<exists>u'. addMinimalGaspTable (Some u) = Inr u' \<and>
     info u' ''openTypeGaspRangeRecords'' =
       Some (GaspRangeRecords [\<lparr>rangeMaxPPEM = 65535, rangeGaspBehavior = [0, 1, 2, 3]\<rparr>]) \<and>
     addMinimalGaspTable (Some u') = Inr u'"
  by (simp add: addMinimalGaspTable_def)

text \<open>
  Claim C9.  The argument vector of the compiler call is, in order: \<open>-u\<close> for a static
  project (a single UFO) and \<open>-m\<close> for a variable one (a designspace), the source
  path, \<open>-o\<close>, the output-format token, \<open>--output-path\<close>, the destination path, and
  then for each option in order \<open>--name\<close>, followed by the value when it is not empty.
\<close>

theorem process_argument_vector:
  "process_arguments options isVariable tmpDir outputFontPath =
     [if isVariable then ''-m'' else ''-u'',
      fspath (truediv tmpDir (if isVariable then ''temp.designspace'' else ''temp.ufo'')),
      ''-o'',
      (if isVariable
       then (if lower (suffix outputFontPath) = ''.ttf'' then ''variable'' else ''variable-cff2'')
       else (if lower (suffix outputFontPath) = ''.ttf'' then ''ttf'' else ''otf'')),
      ''--output-path'',
      fspath outputFontPath]
     @ concat (map (\<lambda>(option, v). if v = [] then [''--'' @ option] else [''--'' @ option, v])
         options)"
  by (cases isVariable)
     (simp_all add: process_arguments_def compileFromDesignspace_def outputType_def Let_def
        truediv_def name_suffix_temp_ufo name_suffix_temp_designspace extraArguments_loop_eq)

text \<open>
  Claim C10.  When the document declares no instance, every instance that
  \<^verbatim>\<open>addInstances\<close> writes has the family name \<open>Testing\<close>.
\<close>

theorem addInstances_familyName:
  assumes "instances dsDoc = []"
  shows "\<exists>dsDoc'. addInstances dsDoc = Inr dsDoc' \<and>
           (\<forall>inst \<in> set (instances dsDoc'). familyName inst = ''Testing'')"
  by (auto simp: addInstances_eq [OF assms])

theorem addInstances_familyName_witness:
  "instances scenarioA_doc = [] \<and>
   (\<exists>dsDoc'. addInstances scenarioA_doc = Inr dsDoc' \<and>
      map familyName (instances dsDoc') = [''Testing'', ''Testing''])"
proof -
  have h: "instances scenarioA_doc = []"
    by (simp add: scenarioA_doc_def)
  from addInstances_familyName [OF h] obtain dsDoc' where
    d: "addInstances scenarioA_doc = Inr dsDoc'" and
    f: "\<forall>inst \<in> set (instances dsDoc'). familyName inst = ''Testing''"
    by blast
  have "addInstances scenarioA_doc = Inr (scenarioA_doc\<lparr>
       elidedFallbackName := Some ''Regular'',
       instances := [\<lparr>familyName = ''Testing'', styleName = ''Regular'', location = [(''Weight'', 800)]\<rparr>,
                     \<lparr>familyName = ''Testing'', styleName = ''Bold'', location = [(''Weight'', 1400)]\<rparr>]\<rparr>)"
    by (simp add: scenarioA_doc_def eval_simps)
  with d have "length (instances dsDoc') = 2" by auto
  with f have "map familyName (instances dsDoc') = [''Testing'', ''Testing'']"
    by (cases "instances dsDoc'"; cases "tl (instances dsDoc')") auto
  with h d show ?thesis by simp
qed

end
